theory Spec2Isabelle
  imports Complex_Main "HOL-Library.Multiset"
begin

section \<open>Pedestrian detection service: the per-frame tracking pipeline\<close>

text \<open>
  A shallow embedding of \<^verbatim>\<open>_detect_and_annotate\<close> in
  \<^verbatim>\<open>peddetect/backend/app.py\<close>. The video source, the HOG detector and the
  encoder are external: a video is given by what \<^verbatim>\<open>cv2.VideoCapture\<close> reports
  about it and, for every decoded frame, by the boxes \<^verbatim>\<open>hog.detectMultiScale\<close>
  returns on that frame (the weights are never read). Python ints are \<open>int\<close>, counters
  that only count up from zero are \<open>nat\<close>. Centres and distances are real numbers: a
  centre is a half-integer, and the comparisons of distances come out on doubles as they
  do on the reals. The average speed is different: \<^verbatim>\<open>float(np.mean(..))\<close> sums and
  divides in double arithmetic, inside numpy, and its rounding can decide a comparison
  with a threshold. It is therefore not computed here: every function that reaches the
  label takes as parameter \<open>np_mean\<close> the function that returns this value for a list of
  samples, and the properties hold for every such function.
\<close>

subsection \<open>Module constants\<close>

definition MAX_REPORTED_FRAMES :: nat where
  "MAX_REPORTED_FRAMES = 50"

definition TRACK_DISTANCE_THRESHOLD :: real where
  "TRACK_DISTANCE_THRESHOLD = 80"

definition TRACK_MAX_MISSES :: int where
  "TRACK_MAX_MISSES = 10"

definition SLOW_SPEED_THRESHOLD :: real where
  "SLOW_SPEED_THRESHOLD = 60"

definition FAST_SPEED_THRESHOLD :: real where
  "FAST_SPEED_THRESHOLD = 150"

subsection \<open>Data\<close>

text \<open>A row \<^verbatim>\<open>(x, y, w, h)\<close> of the detector's result.\<close>

type_synonym box = "int \<times> int \<times> int \<times> int"

text \<open>The dict \<^verbatim>\<open>{"x": .., "y": .., "w": .., "h": ..}\<close>.\<close>

record detection =
  det_x :: int
  det_y :: int
  det_w :: int
  det_h :: int

type_synonym point = "real \<times> real"

text \<open>
  A track dict. \<^verbatim>\<open>track.get("last_detection")\<close> is \<^verbatim>\<open>None\<close> for a missing key,
  hence the option.
\<close>

record track =
  position :: point
  velocity_samples :: "real list"
  misses :: int
  last_detection :: "detection option"

text \<open>An entry of \<^verbatim>\<open>unmatched_centers\<close>: a pair of \<^verbatim>\<open>zip(frame_detections, centers)\<close>.\<close>

type_synonym candidate = "detection \<times> point"

record frame_report =
  frame_index :: nat
  count :: nat
  boxes :: "detection list"

text \<open>The returned dict, and the local variables of the frame loop that extend it.\<close>

record summary =
  total_frames :: nat
  frames_with_detections :: nat
  total_detections :: nat
  reported_frames :: "frame_report list"

text \<open>
  \<open>written\<close> is the sink: one entry per frame passed to \<^verbatim>\<open>video_writer.append_data\<close>,
  holding the rectangles and labels drawn on that frame.
\<close>

record run_state = summary +
  tracks :: "track list"
  written :: "(detection \<times> string) list list"

record video =
  is_opened :: bool
  prop_fps :: real
  prop_width :: real
  prop_height :: real
  writer_ok :: bool
  frame_boxes :: "box list list"

datatype error = ValueError string

subsection \<open>Geometry\<close>

definition to_detection :: "box \<Rightarrow> detection" where
  "to_detection b = (case b of (x, y, w, h) \<Rightarrow>
     \<lparr>det_x = x, det_y = y, det_w = w, det_h = h\<rparr>)"

definition to_center :: "box \<Rightarrow> point" where
  "to_center b = (case b of (x, y, w, h) \<Rightarrow>
     (real_of_int x + real_of_int w / 2, real_of_int y + real_of_int h / 2))"

definition point_sub :: "point \<Rightarrow> point \<Rightarrow> point" where
  "point_sub a b = (fst a - fst b, snd a - snd b)"

definition linalg_norm :: "point \<Rightarrow> real" where
  "linalg_norm v = sqrt (fst v * fst v + snd v * snd v)"

subsection \<open>Association: the search for the nearest candidate\<close>

text \<open>
  The state of the inner loop is \<^verbatim>\<open>(best_match, best_distance)\<close>;
  \<^verbatim>\<open>float("inf")\<close> is \<open>None\<close> in the second component.
\<close>

type_synonym best = "(nat \<times> detection \<times> point) option \<times> real option"

definition lt_best :: "real \<Rightarrow> real option \<Rightarrow> bool" where
  "lt_best distance best_distance =
     (case best_distance of None \<Rightarrow> True | Some b \<Rightarrow> distance < b)"

definition scan_step :: "point \<Rightarrow> best \<Rightarrow> nat \<times> candidate \<Rightarrow> best" where
  "scan_step pos b e = (case e of (idx, (det, center)) \<Rightarrow>
     (let distance = linalg_norm (point_sub center pos) in
      if lt_best distance (snd b) then (Some (idx, det, center), Some distance)
      else b))"

definition find_best :: "point \<Rightarrow> candidate list \<Rightarrow> best" where
  "find_best pos unmatched_centers =
     foldl (scan_step pos) (None, None) (enumerate 0 unmatched_centers)"

text \<open>\<^verbatim>\<open>list.pop(idx)\<close>, called only with an index that \<^verbatim>\<open>enumerate\<close> produced.\<close>

definition pop :: "nat \<Rightarrow> 'a list \<Rightarrow> 'a list" where
  "pop idx xs = take idx xs @ drop (Suc idx) xs"

subsection \<open>Association: one track, one frame\<close>

definition within_threshold :: "real option \<Rightarrow> bool" where
  "within_threshold best_distance =
     (case best_distance of None \<Rightarrow> False | Some d \<Rightarrow> d \<le> TRACK_DISTANCE_THRESHOLD)"

definition commit_match :: "track \<Rightarrow> detection \<Rightarrow> point \<Rightarrow> track" where
  "commit_match track det center =
     (let displacement = linalg_norm (point_sub center (position track)) in
      track\<lparr>position := center,
            velocity_samples := velocity_samples track @ [displacement],
            misses := 0,
            last_detection := Some det\<rparr>)"

definition miss_track :: "track \<Rightarrow> track list \<Rightarrow> track list" where
  "miss_track track updated_tracks =
     (let track' = track\<lparr>misses := misses track + 1\<rparr> in
      if misses track' \<le> TRACK_MAX_MISSES then updated_tracks @ [track']
      else updated_tracks)"

text \<open>The body of \<^verbatim>\<open>for track in tracks\<close>, on the pair
  \<^verbatim>\<open>(updated_tracks, unmatched_centers)\<close>.\<close>

definition track_step ::
  "track list \<times> candidate list \<Rightarrow> track \<Rightarrow> track list \<times> candidate list" where
  "track_step s track = (case s of (updated_tracks, unmatched_centers) \<Rightarrow>
     (case find_best (position track) unmatched_centers of
        (Some (idx, det, center), best_distance) \<Rightarrow>
          if within_threshold best_distance
          then (updated_tracks @ [commit_match track det center], pop idx unmatched_centers)
          else (miss_track track updated_tracks, unmatched_centers)
      | (None, best_distance) \<Rightarrow> (miss_track track updated_tracks, unmatched_centers)))"

definition new_track :: "candidate \<Rightarrow> track" where
  "new_track c = (case c of (det, center) \<Rightarrow>
     \<lparr>position = center, velocity_samples = [], misses = 0, last_detection = Some det\<rparr>)"

definition match_tracks ::
  "track list \<Rightarrow> candidate list \<Rightarrow> track list \<times> candidate list" where
  "match_tracks trks unmatched_centers = foldl track_step ([], unmatched_centers) trks"

text \<open>The block under \<^verbatim>\<open>if centers:\<close>; its result is the new \<^verbatim>\<open>tracks\<close>.\<close>

definition associate :: "track list \<Rightarrow> detection list \<Rightarrow> point list \<Rightarrow> track list" where
  "associate trks frame_detections centers =
     (case match_tracks trks (zip frame_detections centers) of
        (updated_tracks, unmatched_centers) \<Rightarrow>
          updated_tracks @ map new_track unmatched_centers)"

subsection \<open>Speed label and drawing\<close>

definition speed_label :: "(real list \<Rightarrow> real) \<Rightarrow> track \<Rightarrow> string" where
  "speed_label np_mean track =
     (let avg_speed = (if velocity_samples track \<noteq> [] then np_mean (velocity_samples track)
                       else 0) in
      if avg_speed \<ge> FAST_SPEED_THRESHOLD then ''fast''
      else if avg_speed \<le> SLOW_SPEED_THRESHOLD then ''slow''
      else ''normal'')"

text \<open>
  The drawing loop: a track without \<^verbatim>\<open>last_detection\<close> is skipped by
  \<^verbatim>\<open>continue\<close>; every other one gets its rectangle and the text
  \<^verbatim>\<open>f"speed: {label}"\<close>. A detection dict has four keys, so \<^verbatim>\<open>not det\<close> holds
  for \<^verbatim>\<open>None\<close> only.
\<close>

definition draw_track ::
  "(real list \<Rightarrow> real) \<Rightarrow> track \<Rightarrow> (detection \<times> string) list" where
  "draw_track np_mean track =
     (case last_detection track of
        None \<Rightarrow> []
      | Some det \<Rightarrow> [(det, ''speed: '' @ speed_label np_mean track)])"

definition draw_tracks ::
  "(real list \<Rightarrow> real) \<Rightarrow> track list \<Rightarrow> (detection \<times> string) list" where
  "draw_tracks np_mean trks = concat (map (draw_track np_mean) trks)"

subsection \<open>The frame loop\<close>

definition record_detections :: "run_state \<Rightarrow> detection list \<Rightarrow> run_state" where
  "record_detections st frame_detections =
     (if frame_detections \<noteq> [] then
        (let st1 = st\<lparr>frames_with_detections := frames_with_detections st + 1,
                      total_detections := total_detections st + length frame_detections\<rparr>
         in if length (reported_frames st1) < MAX_REPORTED_FRAMES
            then st1\<lparr>reported_frames := reported_frames st1 @
                   [\<lparr>frame_index = total_frames st1,
                     count = length frame_detections,
                     boxes = frame_detections\<rparr>]\<rparr>
            else st1)
      else st)"

definition update_tracks :: "run_state \<Rightarrow> detection list \<Rightarrow> point list \<Rightarrow> run_state" where
  "update_tracks st frame_detections centers =
     (if centers \<noteq> [] then st\<lparr>tracks := associate (tracks st) frame_detections centers\<rparr>
      else st)"

text \<open>One iteration of \<^verbatim>\<open>while True\<close> after a successful \<^verbatim>\<open>cap.read()\<close>.\<close>

definition process_frame ::
  "(real list \<Rightarrow> real) \<Rightarrow> run_state \<Rightarrow> box list \<Rightarrow> run_state" where
  "process_frame np_mean st bxs =
     (let frame_detections = map to_detection bxs;
          centers = map to_center bxs;
          st1 = record_detections st frame_detections;
          st2 = update_tracks st1 frame_detections centers;
          st3 = st2\<lparr>written := written st2 @ [draw_tracks np_mean (tracks st2)]\<rparr>
      in st3\<lparr>total_frames := total_frames st3 + 1\<rparr>)"

definition init_state :: run_state where
  "init_state = \<lparr>total_frames = 0, frames_with_detections = 0, total_detections = 0,
                 reported_frames = [], tracks = [], written = []\<rparr>"

definition run_frames :: "(real list \<Rightarrow> real) \<Rightarrow> box list list \<Rightarrow> run_state" where
  "run_frames np_mean frames = foldl (process_frame np_mean) init_state frames"

subsection \<open>The whole run\<close>

text \<open>\<^verbatim>\<open>v or 0\<close> on a float, and \<^verbatim>\<open>int(..)\<close>, which truncates towards zero.\<close>

definition or_zero :: "real \<Rightarrow> real" where
  "or_zero v = (if v = 0 then 0 else v)"

definition py_int :: "real \<Rightarrow> int" where
  "py_int v = (if 0 \<le> v then \<lfloor>v\<rfloor> else \<lceil>v\<rceil>)"

text \<open>
  The frame rate handed to the encoder, \<^verbatim>\<open>max(float(fps), 1.0)\<close> with
  \<^verbatim>\<open>fps = cap.get(cv2.CAP_PROP_FPS) or 24.0\<close>. Whether the encoder starts is the
  field \<open>writer_ok\<close>; the result of the run does not depend on the rate.
\<close>

definition writer_fps :: "video \<Rightarrow> real" where
  "writer_fps v = max (if prop_fps v = 0 then 24 else prop_fps v) 1"

definition detect_and_annotate :: "(real list \<Rightarrow> real) \<Rightarrow> video \<Rightarrow> error + summary" where
  "detect_and_annotate np_mean v =
     (if \<not> is_opened v then Inl (ValueError ''Unable to open the uploaded video.'')
      else
        let width = py_int (or_zero (prop_width v));
            height = py_int (or_zero (prop_height v))
        in if width = 0 \<or> height = 0
           then Inl (ValueError
             ''Video metadata could not be read; ensure the file is a valid video.'')
           else if \<not> writer_ok v
           then Inl (ValueError
             ''Unable to initialise the video encoder; ensure FFmpeg is available.'')
           else
             let st = run_frames np_mean (frame_boxes v)
             in if total_frames st = 0
                then Inl (ValueError
                  ''No frames detected; the uploaded file may be corrupted.'')
                else Inr (summary.truncate st))"

subsection \<open>Notions used in the statements\<close>

text \<open>The distance the inner loop computes for a candidate.\<close>

definition cand_dist :: "point \<Rightarrow> candidate \<Rightarrow> real" where
  "cand_dist pos c = linalg_norm (point_sub (snd c) pos)"

text \<open>Index \<open>i\<close> is the first position of the pool at minimal distance from \<open>pos\<close>.\<close>

definition first_min :: "point \<Rightarrow> candidate list \<Rightarrow> nat \<Rightarrow> bool" where
  "first_min pos xs i \<longleftrightarrow>
     i < length xs \<and>
     (\<forall>j < length xs. cand_dist pos (xs ! i) \<le> cand_dist pos (xs ! j)) \<and>
     (\<forall>j < i. cand_dist pos (xs ! i) < cand_dist pos (xs ! j))"

text \<open>
  The mean without rounding. It is the value of \<^verbatim>\<open>float(np.mean(..))\<close> on a list whose
  sum and quotient are exact in double arithmetic, as for the few small integers of the
  examples below, and serves as the parameter \<open>np_mean\<close> in those examples only.
\<close>

definition exact_mean :: "real list \<Rightarrow> real" where
  "exact_mean xs = sum_list xs / real (length xs)"

text \<open>The invariant of the track store.\<close>

definition track_ok :: "track \<Rightarrow> bool" where
  "track_ok t \<longleftrightarrow>
     0 \<le> misses t \<and> misses t \<le> TRACK_MAX_MISSES \<and> last_detection t \<noteq> None"

text \<open>
  The candidates that the tracks touched in the current frame refer to: a track
  matched or created in a frame leaves it with \<open>misses = 0\<close>, box and position
  taken from its candidate.
\<close>

definition touched :: "track list \<Rightarrow> candidate list" where
  "touched trks = concat (map (\<lambda>t.
     case last_detection t of
       None \<Rightarrow> []
     | Some det \<Rightarrow> if misses t = 0 then [(det, position t)] else []) trks)"

text \<open>
  The reports as the specification words them: one for every frame with at least one
  detection, with the frame's 0-based index and its number of detections.
\<close>

definition expected_reports :: "box list list \<Rightarrow> frame_report list" where
  "expected_reports frames =
     [\<lparr>frame_index = i, count = length (frames ! i),
       boxes = map to_detection (frames ! i)\<rparr>.
      i \<leftarrow> [0..<length frames], frames ! i \<noteq> []]"

section \<open>Properties\<close>

lemmas consts_defs = MAX_REPORTED_FRAMES_def TRACK_DISTANCE_THRESHOLD_def
  TRACK_MAX_MISSES_def SLOW_SPEED_THRESHOLD_def FAST_SPEED_THRESHOLD_def

subsection \<open>The nearest-candidate search\<close>

lemma find_best_Nil: "find_best pos [] = (None, None)"
  by (simp add: find_best_def)

lemma find_best_snoc:
  "find_best pos (xs @ [c]) = scan_step pos (find_best pos xs) (length xs, c)"
  by (simp add: find_best_def enumerate_append_eq)

lemma first_min_unique: "first_min pos xs i \<Longrightarrow> first_min pos xs k \<Longrightarrow> i = k"
  unfolding first_min_def
  by (metis linorder_neqE_nat not_less)

lemma find_best_first_min:
  "xs \<noteq> [] \<Longrightarrow> \<exists>i. first_min pos xs i \<and>
     find_best pos xs = (Some (i, fst (xs ! i), snd (xs ! i)), Some (cand_dist pos (xs ! i)))"
proof (induction xs rule: rev_induct)
  case Nil
  then show ?case by simp
next
  case (snoc c xs)
  show ?case
  proof (cases "xs = []")
    case True
    then show ?thesis
      by (cases c) (simp add: find_best_def scan_step_def lt_best_def
          first_min_def cand_dist_def)
  next
    case False
    with snoc.IH obtain i where fm: "first_min pos xs i"
      and fb: "find_best pos xs =
        (Some (i, fst (xs ! i), snd (xs ! i)), Some (cand_dist pos (xs ! i)))"
      by blast
    from fm have il: "i < length xs" by (simp add: first_min_def)
    show ?thesis
    proof (cases "cand_dist pos c < cand_dist pos (xs ! i)")
      case True
      have "first_min pos (xs @ [c]) (length xs)"
        unfolding first_min_def using fm True
        by (auto simp: nth_append first_min_def less_Suc_eq intro: less_le_trans)
      moreover have "find_best pos (xs @ [c]) =
          (Some (length xs, fst c, snd c), Some (cand_dist pos c))"
        using True by (cases c) (simp add: find_best_snoc fb scan_step_def lt_best_def cand_dist_def)
      ultimately show ?thesis by (intro exI[of _ "length xs"]) simp
    next
      case False
      have "first_min pos (xs @ [c]) i"
        unfolding first_min_def using fm False il
        by (auto simp: nth_append first_min_def less_Suc_eq)
      moreover have "find_best pos (xs @ [c]) = find_best pos xs"
        using False by (cases c) (simp add: find_best_snoc fb scan_step_def lt_best_def cand_dist_def)
      ultimately show ?thesis using fb il by (intro exI[of _ i]) (simp add: nth_append)
    qed
  qed
qed

lemma find_best_at:
  assumes "first_min pos xs i"
  shows "find_best pos xs = (Some (i, fst (xs ! i), snd (xs ! i)), Some (cand_dist pos (xs ! i)))"
proof -
  from assms have "xs \<noteq> []" by (auto simp: first_min_def)
  from find_best_first_min[OF this, of pos] obtain k where
    "first_min pos xs k" and
    fb: "find_best pos xs = (Some (k, fst (xs ! k), snd (xs ! k)), Some (cand_dist pos (xs ! k)))"
    by blast
  with assms have "k = i" by (simp add: first_min_unique)
  with fb show ?thesis by simp
qed

lemma track_step_commit:
  assumes "first_min (position t) pool i"
    and "cand_dist (position t) (pool ! i) \<le> TRACK_DISTANCE_THRESHOLD"
  shows "track_step (upd, pool) t =
     (upd @ [commit_match t (fst (pool ! i)) (snd (pool ! i))], pop i pool)"
  using assms(2)
  by (simp add: track_step_def find_best_at[OF assms(1)] within_threshold_def case_prod_beta)

lemma track_step_far:
  assumes "\<forall>c \<in> set pool. TRACK_DISTANCE_THRESHOLD < cand_dist (position t) c"
  shows "track_step (upd, pool) t = (miss_track t upd, pool)"
proof (cases "pool = []")
  case True
  then show ?thesis by (simp add: track_step_def find_best_Nil)
next
  case False
  from find_best_first_min[OF this, of "position t"] obtain i where
    fm: "first_min (position t) pool i" and
    fb: "find_best (position t) pool =
       (Some (i, fst (pool ! i), snd (pool ! i)), Some (cand_dist (position t) (pool ! i)))"
    by blast
  from fm have "pool ! i \<in> set pool" by (simp add: first_min_def)
  with assms have "\<not> cand_dist (position t) (pool ! i) \<le> TRACK_DISTANCE_THRESHOLD"
    by fastforce
  then show ?thesis by (simp add: track_step_def fb within_threshold_def case_prod_beta)
qed

lemma track_step_cases:
  "(\<exists>i. first_min (position t) pool i \<and>
        cand_dist (position t) (pool ! i) \<le> TRACK_DISTANCE_THRESHOLD \<and>
        track_step (upd, pool) t =
          (upd @ [commit_match t (fst (pool ! i)) (snd (pool ! i))], pop i pool))
   \<or> track_step (upd, pool) t = (miss_track t upd, pool)"
proof (cases "pool = []")
  case True
  then show ?thesis by (simp add: track_step_def find_best_Nil)
next
  case False
  from find_best_first_min[OF this, of "position t"] obtain i where
    fm: "first_min (position t) pool i" and
    fb: "find_best (position t) pool =
       (Some (i, fst (pool ! i), snd (pool ! i)), Some (cand_dist (position t) (pool ! i)))"
    by blast
  show ?thesis
  proof (cases "cand_dist (position t) (pool ! i) \<le> TRACK_DISTANCE_THRESHOLD")
    case True
    with fm track_step_commit[OF fm True] show ?thesis by blast
  next
    case False
    then show ?thesis by (simp add: track_step_def fb within_threshold_def case_prod_beta)
  qed
qed

lemma match_tracks_Nil: "match_tracks [] pool = ([], pool)"
  by (simp add: match_tracks_def)

lemma match_tracks_snoc:
  "match_tracks (trks @ [t]) pool = track_step (match_tracks trks pool) t"
  by (simp add: match_tracks_def)


subsection \<open>Invariant of the track store\<close>

lemma track_ok_commit: "track_ok (commit_match t det c)"
  by (simp add: track_ok_def commit_match_def consts_defs)

lemma track_ok_new: "track_ok (new_track c)"
  by (cases c) (simp add: track_ok_def new_track_def consts_defs)

lemma track_ok_miss:
  "track_ok t \<Longrightarrow> \<forall>u \<in> set upd. track_ok u \<Longrightarrow> \<forall>u \<in> set (miss_track t upd). track_ok u"
  by (simp add: track_ok_def miss_track_def)

lemma track_step_ok:
  assumes "track_ok t" and "\<forall>u \<in> set (fst s). track_ok u"
  shows "\<forall>u \<in> set (fst (track_step s t)). track_ok u"
proof (cases s)
  case (Pair upd pool)
  with assms(2) have upd: "\<forall>u \<in> set upd. track_ok u" by simp
  from track_step_cases[of t pool upd] show ?thesis
  proof
    assume "\<exists>i. first_min (position t) pool i \<and>
        cand_dist (position t) (pool ! i) \<le> TRACK_DISTANCE_THRESHOLD \<and>
        track_step (upd, pool) t =
          (upd @ [commit_match t (fst (pool ! i)) (snd (pool ! i))], pop i pool)"
    then obtain i where "track_step (upd, pool) t =
          (upd @ [commit_match t (fst (pool ! i)) (snd (pool ! i))], pop i pool)"
      by blast
    then show ?thesis using upd by (simp add: Pair track_ok_commit)
  next
    assume "track_step (upd, pool) t = (miss_track t upd, pool)"
    then show ?thesis using track_ok_miss[OF assms(1) upd] by (simp add: Pair)
  qed
qed

lemma match_tracks_ok:
  "\<forall>t \<in> set trks. track_ok t \<Longrightarrow> \<forall>u \<in> set (fst (match_tracks trks pool)). track_ok u"
proof (induction trks rule: rev_induct)
  case Nil
  then show ?case by (simp add: match_tracks_Nil)
next
  case (snoc t trks)
  from snoc.prems have t: "track_ok t" and rest: "\<forall>u \<in> set trks. track_ok u"
    by simp_all
  from snoc.IH[OF rest] have "\<forall>u \<in> set (fst (match_tracks trks pool)). track_ok u" .
  from track_step_ok[OF t this] show ?case by (simp only: match_tracks_snoc)
qed

lemma associate_ok:
  assumes "\<forall>t \<in> set trks. track_ok t"
  shows "\<forall>u \<in> set (associate trks fd cs). track_ok u"
proof -
  obtain upd rest where m: "match_tracks trks (zip fd cs) = (upd, rest)"
    by (cases "match_tracks trks (zip fd cs)")
  from match_tracks_ok[OF assms, of "zip fd cs"] m have "\<forall>u \<in> set upd. track_ok u" by simp
  then show ?thesis by (auto simp: associate_def m track_ok_new)
qed

subsection \<open>Fields after one frame\<close>

lemma tracks_process_frame:
  "tracks (process_frame np_mean st bxs) =
     (if bxs \<noteq> [] then associate (tracks st) (map to_detection bxs) (map to_center bxs)
      else tracks st)"
  by (simp add: process_frame_def record_detections_def update_tracks_def Let_def)

lemma total_frames_process_frame:
  "total_frames (process_frame np_mean st bxs) = total_frames st + 1"
  by (simp add: process_frame_def record_detections_def update_tracks_def Let_def)

lemma total_detections_process_frame:
  "total_detections (process_frame np_mean st bxs) = total_detections st + length bxs"
  by (simp add: process_frame_def record_detections_def update_tracks_def Let_def)

lemma frames_with_detections_process_frame:
  "frames_with_detections (process_frame np_mean st bxs) =
     frames_with_detections st + (if bxs \<noteq> [] then 1 else 0)"
  by (simp add: process_frame_def record_detections_def update_tracks_def Let_def)

lemma reported_frames_process_frame:
  "reported_frames (process_frame np_mean st bxs) =
     (if bxs \<noteq> [] \<and> length (reported_frames st) < MAX_REPORTED_FRAMES
      then reported_frames st @
        [\<lparr>frame_index = total_frames st, count = length bxs, boxes = map to_detection bxs\<rparr>]
      else reported_frames st)"
  by (simp add: process_frame_def record_detections_def update_tracks_def Let_def)

lemma written_process_frame:
  "written (process_frame np_mean st bxs) =
     written st @ [draw_tracks np_mean (tracks (process_frame np_mean st bxs))]"
  by (simp add: process_frame_def record_detections_def update_tracks_def Let_def)

lemma run_frames_Nil: "run_frames np_mean [] = init_state"
  by (simp add: run_frames_def)

lemma run_frames_snoc:
  "run_frames np_mean (fs @ [f]) = process_frame np_mean (run_frames np_mean fs) f"
  by (simp add: run_frames_def)

lemma total_frames_run: "total_frames (run_frames np_mean fs) = length fs"
  by (induction fs rule: rev_induct)
     (simp_all add: run_frames_Nil init_state_def run_frames_snoc total_frames_process_frame)

lemma total_detections_run:
  "total_detections (run_frames np_mean fs) = sum_list (map length fs)"
  by (induction fs rule: rev_induct)
     (simp_all add: run_frames_Nil init_state_def run_frames_snoc total_detections_process_frame)

lemma frames_with_detections_run:
  "frames_with_detections (run_frames np_mean fs) = length (filter (\<lambda>f. f \<noteq> []) fs)"
  by (induction fs rule: rev_induct)
     (simp_all add: run_frames_Nil init_state_def run_frames_snoc
        frames_with_detections_process_frame)

lemma expected_reports_Nil: "expected_reports [] = []"
  by (simp add: expected_reports_def)

lemma expected_reports_snoc:
  "expected_reports (fs @ [f]) = expected_reports fs @
     (if f \<noteq> [] then
        [\<lparr>frame_index = length fs, count = length f, boxes = map to_detection f\<rparr>]
      else [])"
proof -
  define g where "g = (\<lambda>(xs :: box list list) i. if xs ! i \<noteq> []
       then [\<lparr>frame_index = i, count = length (xs ! i), boxes = map to_detection (xs ! i)\<rparr>]
       else [])"
  have ex: "expected_reports xs = concat (map (g xs) [0..<length xs])" for xs
    by (simp add: expected_reports_def g_def)
  have same: "map (g (fs @ [f])) [0..<length fs] = map (g fs) [0..<length fs]"
    by (rule map_cong) (simp_all add: g_def nth_append)
  have last: "g (fs @ [f]) (length fs) =
     (if f \<noteq> [] then
        [\<lparr>frame_index = length fs, count = length f, boxes = map to_detection f\<rparr>]
      else [])"
    by (simp add: g_def)
  have "expected_reports (fs @ [f]) =
      concat (map (g (fs @ [f])) [0..<length fs]) @ g (fs @ [f]) (length fs)"
    by (simp add: ex)
  then show ?thesis by (simp only: same last ex)
qed

lemma reported_frames_run:
  "reported_frames (run_frames np_mean fs) = take MAX_REPORTED_FRAMES (expected_reports fs)"
proof (induction fs rule: rev_induct)
  case Nil
  then show ?case by (simp add: run_frames_Nil init_state_def expected_reports_Nil)
next
  case (snoc f fs)
  then show ?case
    by (auto simp: run_frames_snoc reported_frames_process_frame expected_reports_snoc
        total_frames_run min_def)
qed

lemma tracks_run_ok: "\<forall>t \<in> set (tracks (run_frames np_mean fs)). track_ok t"
proof (induction fs rule: rev_induct)
  case Nil
  then show ?case by (simp add: run_frames_Nil init_state_def)
next
  case (snoc f fs)
  then show ?case
    using associate_ok[OF snoc.IH]
    by (simp add: run_frames_snoc tracks_process_frame)
qed


subsection \<open>The track loop, one track at a time\<close>

lemma track_step_prefix:
  "track_step (u, p) t = (u @ fst (track_step ([], p) t), snd (track_step ([], p) t))"
  by (simp add: track_step_def miss_track_def Let_def split: prod.splits option.splits)

lemma foldl_track_step_prefix:
  "foldl track_step (u, p) ts =
     (u @ fst (foldl track_step ([], p) ts), snd (foldl track_step ([], p) ts))"
proof (induction ts rule: rev_induct)
  case Nil
  then show ?case by simp
next
  case (snoc t ts)
  obtain a b where ab: "foldl track_step ([], p) ts = (a, b)"
    by (cases "foldl track_step ([], p) ts")
  have "foldl track_step (u, p) (ts @ [t]) = track_step (u @ a, b) t"
    using snoc.IH by (simp add: ab)
  also have "\<dots> = ((u @ a) @ fst (track_step ([], b) t), snd (track_step ([], b) t))"
    by (rule track_step_prefix)
  finally show ?case
    using track_step_prefix[of a b t] by (simp add: ab)
qed

lemma match_tracks_Cons:
  "match_tracks (t # ts) pool =
     (fst (track_step ([], pool) t) @ fst (match_tracks ts (snd (track_step ([], pool) t))),
      snd (match_tracks ts (snd (track_step ([], pool) t))))"
proof -
  obtain u p where up: "track_step ([], pool) t = (u, p)"
    by (cases "track_step ([], pool) t")
  show ?thesis
    using foldl_track_step_prefix[of u p ts] by (simp add: match_tracks_def up)
qed

subsection \<open>Candidates are consumed once\<close>

lemma mset_pop: "i < length xs \<Longrightarrow> mset (pop i xs) + {#xs ! i#} = mset xs"
proof -
  assume "i < length xs"
  then have "xs = take i xs @ xs ! i # drop (Suc i) xs"
    by (rule id_take_nth_drop)
  then have "mset xs = mset (take i xs @ xs ! i # drop (Suc i) xs)"
    by simp
  then show ?thesis by (simp add: pop_def)
qed

lemma touched_Nil: "touched [] = []"
  by (simp add: touched_def)

lemma touched_append: "touched (a @ b) = touched a @ touched b"
  by (simp add: touched_def)

lemma touched_commit: "touched [commit_match t det c] = [(det, c)]"
  by (simp add: touched_def commit_match_def)

lemma touched_new: "touched (map new_track cs) = cs"
  by (induction cs) (auto simp: touched_def new_track_def)

lemma touched_miss: "0 \<le> misses t \<Longrightarrow> touched (miss_track t u) = touched u"
  by (simp add: touched_def miss_track_def split: option.splits)

lemma track_step_touched:
  assumes "0 \<le> misses t"
  shows "mset (touched (fst (track_step (u, p) t))) + mset (snd (track_step (u, p) t)) =
         mset (touched u) + mset p"
  using track_step_cases[of t p u]
proof
  assume "\<exists>i. first_min (position t) p i \<and>
        cand_dist (position t) (p ! i) \<le> TRACK_DISTANCE_THRESHOLD \<and>
        track_step (u, p) t = (u @ [commit_match t (fst (p ! i)) (snd (p ! i))], pop i p)"
  then obtain i where il: "i < length p"
    and st: "track_step (u, p) t = (u @ [commit_match t (fst (p ! i)) (snd (p ! i))], pop i p)"
    by (auto simp: first_min_def)
  show ?thesis
    using mset_pop[OF il] by (simp add: st touched_append touched_commit)
next
  assume "track_step (u, p) t = (miss_track t u, p)"
  then show ?thesis by (simp add: touched_miss[OF assms])
qed

lemma match_tracks_touched:
  "\<forall>t \<in> set trks. 0 \<le> misses t \<Longrightarrow>
   mset (touched (fst (match_tracks trks pool))) + mset (snd (match_tracks trks pool)) =
   mset pool"
proof (induction trks rule: rev_induct)
  case Nil
  then show ?case by (simp add: match_tracks_Nil touched_Nil)
next
  case (snoc t trks)
  obtain u p where up: "match_tracks trks pool = (u, p)"
    by (cases "match_tracks trks pool")
  from snoc.prems have "0 \<le> misses t" by simp
  from track_step_touched[OF this, of u p] snoc show ?case
    by (simp add: match_tracks_snoc up)
qed

lemma associate_touched:
  assumes "\<forall>t \<in> set trks. 0 \<le> misses t"
  shows "mset (touched (associate trks fd cs)) = mset (zip fd cs)"
proof -
  obtain u p where up: "match_tracks trks (zip fd cs) = (u, p)"
    by (cases "match_tracks trks (zip fd cs)")
  from match_tracks_touched[OF assms, of "zip fd cs"] show ?thesis
    by (simp add: associate_def up touched_append touched_new)
qed

subsection \<open>The run as a whole\<close>

lemma length_expected_reports:
  "length (expected_reports fs) = length (filter (\<lambda>f. f \<noteq> []) fs)"
  by (induction fs rule: rev_induct) (simp_all add: expected_reports_Nil expected_reports_snoc)

lemma detect_and_annotate_Inr:
  "detect_and_annotate np_mean v = Inr s \<Longrightarrow>
     s = summary.truncate (run_frames np_mean (frame_boxes v)) \<and> frame_boxes v \<noteq> []"
  using total_frames_run[of np_mean "frame_boxes v"]
  by (auto simp: detect_and_annotate_def Let_def split: if_splits)

lemma truncate_fields:
  "total_frames (summary.truncate st) = total_frames st"
  "frames_with_detections (summary.truncate st) = frames_with_detections st"
  "total_detections (summary.truncate st) = total_detections st"
  "reported_frames (summary.truncate st) = reported_frames st"
  by (simp_all add: summary.truncate_def)

subsection \<open>Evaluation on concrete inputs\<close>

lemma point_sub_pair: "point_sub (a, b) (c, d) = (a - c, b - d)"
  by (simp add: point_sub_def)

lemma linalg_norm_axis: "linalg_norm (a, 0) = \<bar>a\<bar>"
  by (simp add: linalg_norm_def)

lemma find_best_single:
  "find_best pos [(det, c)] = (Some (0, det, c), Some (linalg_norm (point_sub c pos)))"
  by (simp add: find_best_def scan_step_def lt_best_def)

lemma tracks_init: "tracks init_state = []"
  by (simp add: init_state_def)

lemma written_init: "written init_state = []"
  by (simp add: init_state_def)

lemmas run_defs = run_frames_def tracks_process_frame written_process_frame tracks_init
  written_init associate_def match_tracks_def to_detection_def to_center_def new_track_def

lemmas step_defs = track_step_def find_best_single within_threshold_def commit_match_def
  miss_track_def pop_def point_sub_pair linalg_norm_axis


subsection \<open>A track in the middle of the loop\<close>

lemma match_tracks_append:
  "match_tracks (a @ b) pool =
     (fst (match_tracks a pool) @ fst (match_tracks b (snd (match_tracks a pool))),
      snd (match_tracks b (snd (match_tracks a pool))))"
proof -
  obtain u p where up: "match_tracks a pool = (u, p)"
    by (cases "match_tracks a pool")
  then have "foldl track_step ([], pool) a = (u, p)"
    by (simp add: match_tracks_def)
  then show ?thesis
    using foldl_track_step_prefix[of u p b] by (simp add: match_tracks_def)
qed

lemma match_tracks_mid:
  "match_tracks (trks @ t # others) pool =
     (fst (match_tracks (trks @ [t]) pool) @
        fst (match_tracks others (snd (match_tracks (trks @ [t]) pool))),
      snd (match_tracks others (snd (match_tracks (trks @ [t]) pool))))"
  using match_tracks_append[of "trks @ [t]" others pool] by simp

subsection \<open>Reaching the frame loop\<close>

lemma detect_and_annotate_loop:
  assumes "is_opened v" and "py_int (or_zero (prop_width v)) \<noteq> 0"
    and "py_int (or_zero (prop_height v)) \<noteq> 0" and "writer_ok v"
  shows "detect_and_annotate np_mean v =
     (if total_frames (run_frames np_mean (frame_boxes v)) = 0
      then Inl (ValueError ''No frames detected; the uploaded file may be corrupted.'')
      else Inr (summary.truncate (run_frames np_mean (frame_boxes v))))"
  using assms by (simp add: detect_and_annotate_def Let_def)

section \<open>The claims\<close>

text \<open>
  C1, as stated: a frame with zero detections ages every track. The code guards the
  whole association block with \<^verbatim>\<open>if centers:\<close>; after one frame with a detection and
  one frame without, the track still has \<open>misses = 0\<close>, not 1.
\<close>

theorem C1_counterexample:
  "map misses (tracks (run_frames exact_mean [[(95, 90, 10, 20)]])) = [0] \<and>
   map misses
     (tracks (process_frame exact_mean (run_frames exact_mean [[(95, 90, 10, 20)]]) [])) = [0] \<and>
   map misses
     (tracks (process_frame exact_mean (run_frames exact_mean [[(95, 90, 10, 20)]]) [])) \<noteq>
     [0 + 1]"
  by (simp add: run_defs consts_defs)

text \<open>
  C1, amended: on a frame with zero detections the association step is skipped and the
  track store after the frame is the store before it: no \<open>misses\<close> counter changes and
  no track is removed.
\<close>

theorem C1_empty_frame_keeps_tracks:
  "tracks (process_frame np_mean st []) = tracks st"
  by (simp add: tracks_process_frame)

text \<open>
  C2, as stated: a track with no velocity sample is labelled \<open>normal\<close>. The average of
  no samples is 0.0, which is at most \<open>SLOW_SPEED_THRESHOLD\<close>: the track created by the
  first frame is drawn with the text \<open>speed: slow\<close>.
\<close>

theorem C2_counterexample:
  "speed_label exact_mean \<lparr>position = (100, 100), velocity_samples = [], misses = 0,
      last_detection = Some \<lparr>det_x = 95, det_y = 90, det_w = 10, det_h = 20\<rparr>\<rparr> \<noteq> ''normal'' \<and>
   written (run_frames exact_mean [[(95, 90, 10, 20)]]) =
     [[(\<lparr>det_x = 95, det_y = 90, det_w = 10, det_h = 20\<rparr>, ''speed: slow'')]]"
  by (simp add: run_defs consts_defs speed_label_def draw_tracks_def draw_track_def)

text \<open>
  C2, amended: every track whose \<open>velocity_samples\<close> list is empty gets the speed label
  \<open>slow\<close>.
\<close>

theorem C2_empty_samples_slow:
  "velocity_samples t = [] \<Longrightarrow> speed_label np_mean t = ''slow''"
  by (simp add: speed_label_def consts_defs)

theorem C2_empty_samples_slow_witness:
  "velocity_samples (new_track (\<lparr>det_x = 95, det_y = 90, det_w = 10, det_h = 20\<rparr>, (100, 100))) = [] \<and>
   speed_label exact_mean
     (new_track (\<lparr>det_x = 95, det_y = 90, det_w = 10, det_h = 20\<rparr>, (100, 100))) = ''slow''"
proof -
  have h: "velocity_samples
      (new_track (\<lparr>det_x = 95, det_y = 90, det_w = 10, det_h = 20\<rparr>, (100, 100))) = []"
    by (simp add: new_track_def)
  from h C2_empty_samples_slow[OF h, where np_mean = exact_mean] show ?thesis by simp
qed

text \<open>
  C3: for a track with at least one velocity sample the label follows the average speed
  the code computes, \<^verbatim>\<open>float(np.mean(track["velocity_samples"]))\<close>, whatever rounding
  went into that value: \<open>fast\<close> when it is at least 150, \<open>slow\<close> when it is at most 60,
  and \<open>normal\<close> otherwise. Both bounds are inclusive: a computed mean of exactly 150.0
  gives \<open>fast\<close> and one of exactly 60.0 gives \<open>slow\<close>.
\<close>

theorem C3_speed_label_thresholds:
  assumes "velocity_samples t \<noteq> []"
  shows "speed_label np_mean t =
     (if np_mean (velocity_samples t) \<ge> 150 then ''fast''
      else if np_mean (velocity_samples t) \<le> 60 then ''slow''
      else ''normal'') \<and>
     (np_mean (velocity_samples t) = 150 \<longrightarrow> speed_label np_mean t = ''fast'') \<and>
     (np_mean (velocity_samples t) = 60 \<longrightarrow> speed_label np_mean t = ''slow'')"
  using assms by (simp add: speed_label_def consts_defs)

theorem C3_speed_label_thresholds_witness:
  "speed_label exact_mean \<lparr>position = (1, 1), velocity_samples = [140, 160], misses = 0,
      last_detection = Some \<lparr>det_x = 0, det_y = 0, det_w = 2, det_h = 2\<rparr>\<rparr> = ''fast'' \<and>
   speed_label exact_mean \<lparr>position = (1, 1), velocity_samples = [50, 70], misses = 0,
      last_detection = Some \<lparr>det_x = 0, det_y = 0, det_w = 2, det_h = 2\<rparr>\<rparr> = ''slow'' \<and>
   speed_label exact_mean \<lparr>position = (1, 1), velocity_samples = [60, 61], misses = 0,
      last_detection = Some \<lparr>det_x = 0, det_y = 0, det_w = 2, det_h = 2\<rparr>\<rparr> = ''normal''"
  using
    C3_speed_label_thresholds[where np_mean = exact_mean
      and t = "\<lparr>position = (1, 1), velocity_samples = [140, 160],
      misses = 0, last_detection = Some \<lparr>det_x = 0, det_y = 0, det_w = 2, det_h = 2\<rparr>\<rparr>"]
    C3_speed_label_thresholds[where np_mean = exact_mean
      and t = "\<lparr>position = (1, 1), velocity_samples = [50, 70],
      misses = 0, last_detection = Some \<lparr>det_x = 0, det_y = 0, det_w = 2, det_h = 2\<rparr>\<rparr>"]
    C3_speed_label_thresholds[where np_mean = exact_mean
      and t = "\<lparr>position = (1, 1), velocity_samples = [60, 61],
      misses = 0, last_detection = Some \<lparr>det_x = 0, det_y = 0, det_w = 2, det_h = 2\<rparr>\<rparr>"]
  by (simp add: exact_mean_def)

text \<open>
  C4: a track that finds no candidate within \<open>TRACK_DISTANCE_THRESHOLD\<close> in the pool
  left by the tracks before it (an empty pool included) is not matched. Its \<open>misses\<close>
  goes up by exactly 1; its position, its samples, its \<open>last_detection\<close> and the pool
  stay as they are; it is kept when the new \<open>misses\<close> is at most 10 and dropped
  otherwise, so a track reaching 10 survives and a track reaching 11 is removed. The
  tracks after it go on with the same pool and are appended behind it.
\<close>

theorem C4_unmatched_track_ages:
  assumes "match_tracks trks pool = (upd, rest)"
    and "\<forall>c \<in> set rest. TRACK_DISTANCE_THRESHOLD < cand_dist (position t) c"
  shows "match_tracks (trks @ t # others) pool =
     ((if misses t + 1 \<le> 10 then upd @ [t\<lparr>misses := misses t + 1\<rparr>] else upd) @
        fst (match_tracks others rest),
      snd (match_tracks others rest))"
proof -
  have "match_tracks (trks @ [t]) pool =
      (if misses t + 1 \<le> 10 then upd @ [t\<lparr>misses := misses t + 1\<rparr>] else upd, rest)"
    using track_step_far[OF assms(2), of upd]
    by (simp add: match_tracks_snoc assms(1) miss_track_def consts_defs)
  then show ?thesis using match_tracks_mid[of trks t others pool] by simp
qed

theorem C4_unmatched_track_ages_witness:
  "TRACK_DISTANCE_THRESHOLD <
     cand_dist (100, 100) (\<lparr>det_x = 995, det_y = 90, det_w = 10, det_h = 20\<rparr>, (1000, 100)) \<and>
   match_tracks
     [\<lparr>position = (100, 100), velocity_samples = [10], misses = 9,
       last_detection = Some \<lparr>det_x = 95, det_y = 90, det_w = 10, det_h = 20\<rparr>\<rparr>]
     [(\<lparr>det_x = 995, det_y = 90, det_w = 10, det_h = 20\<rparr>, (1000, 100))] =
     ([\<lparr>position = (100, 100), velocity_samples = [10], misses = 10,
        last_detection = Some \<lparr>det_x = 95, det_y = 90, det_w = 10, det_h = 20\<rparr>\<rparr>],
      [(\<lparr>det_x = 995, det_y = 90, det_w = 10, det_h = 20\<rparr>, (1000, 100))]) \<and>
   match_tracks
     [\<lparr>position = (100, 100), velocity_samples = [10], misses = 10,
       last_detection = Some \<lparr>det_x = 95, det_y = 90, det_w = 10, det_h = 20\<rparr>\<rparr>]
     [(\<lparr>det_x = 995, det_y = 90, det_w = 10, det_h = 20\<rparr>, (1000, 100))] =
     ([], [(\<lparr>det_x = 995, det_y = 90, det_w = 10, det_h = 20\<rparr>, (1000, 100))])"
proof -
  let ?c = "(\<lparr>det_x = 995, det_y = 90, det_w = 10, det_h = 20\<rparr>, (1000 :: real, 100 :: real))"
  let ?t = "\<lambda>m. \<lparr>position = (100, 100), velocity_samples = [10], misses = m,
       last_detection = Some \<lparr>det_x = 95, det_y = 90, det_w = 10, det_h = 20\<rparr>\<rparr>"
  have far: "TRACK_DISTANCE_THRESHOLD < cand_dist (100, 100) ?c"
    by (simp add: cand_dist_def point_sub_pair linalg_norm_axis consts_defs)
  have start: "match_tracks [] [?c] = ([], [?c])"
    by (rule match_tracks_Nil)
  have h: "\<forall>c \<in> set [?c]. TRACK_DISTANCE_THRESHOLD < cand_dist (position (?t m)) c" for m
    using far by simp
  from far C4_unmatched_track_ages[OF start h, of 9 "[]"]
    C4_unmatched_track_ages[OF start h, of 10 "[]"]
  show ?thesis by (simp add: match_tracks_Nil)
qed

text \<open>
  C5: when the first candidate at minimal distance from a track's position, in the pool
  left by the tracks before it, lies within \<open>TRACK_DISTANCE_THRESHOLD\<close> (80), the match
  is committed: the track's position becomes the candidate's centroid, the distance from
  the old position to that centroid is appended to \<open>velocity_samples\<close>, \<open>misses\<close> becomes
  0, \<open>last_detection\<close> becomes the candidate's detection, and the candidate leaves the
  pool the later tracks see. After the loop every candidate still in the pool becomes a
  new track with its centroid as position, no velocity sample, \<open>misses = 0\<close> and its
  detection as \<open>last_detection\<close>.
\<close>

theorem C5_commit_and_spawn:
  assumes "match_tracks trks (zip fd cs) = (upd, rest)"
    and "first_min (position t) rest i"
    and "cand_dist (position t) (rest ! i) \<le> TRACK_DISTANCE_THRESHOLD"
  shows "match_tracks (trks @ t # others) (zip fd cs) =
     (upd @ [t\<lparr>position := snd (rest ! i),
               velocity_samples := velocity_samples t @
                 [linalg_norm (point_sub (snd (rest ! i)) (position t))],
               misses := 0,
               last_detection := Some (fst (rest ! i))\<rparr>] @
        fst (match_tracks others (take i rest @ drop (Suc i) rest)),
      snd (match_tracks others (take i rest @ drop (Suc i) rest))) \<and>
   associate (trks @ t # others) fd cs =
     fst (match_tracks (trks @ t # others) (zip fd cs)) @
     map (\<lambda>c. \<lparr>position = snd c, velocity_samples = [], misses = 0,
                last_detection = Some (fst c)\<rparr>)
       (snd (match_tracks (trks @ t # others) (zip fd cs)))"
proof -
  have "associate ts fd cs =
     fst (match_tracks ts (zip fd cs)) @
     map (\<lambda>c. \<lparr>position = snd c, velocity_samples = [], misses = 0,
                last_detection = Some (fst c)\<rparr>)
       (snd (match_tracks ts (zip fd cs)))" for ts
    by (simp add: associate_def new_track_def case_prod_beta)
  moreover have "match_tracks (trks @ [t]) (zip fd cs) =
     (upd @ [t\<lparr>position := snd (rest ! i),
               velocity_samples := velocity_samples t @
                 [linalg_norm (point_sub (snd (rest ! i)) (position t))],
               misses := 0,
               last_detection := Some (fst (rest ! i))\<rparr>],
      take i rest @ drop (Suc i) rest)"
    using track_step_commit[OF assms(2,3), of upd]
    by (simp add: match_tracks_snoc assms(1) commit_match_def pop_def)
  ultimately show ?thesis using match_tracks_mid[of trks t others "zip fd cs"] by simp
qed

theorem C5_commit_and_spawn_witness:
  "first_min (100, 100)
     [(\<lparr>det_x = 300, det_y = 90, det_w = 10, det_h = 20\<rparr>, (305, 100)),
      (\<lparr>det_x = 105, det_y = 90, det_w = 10, det_h = 20\<rparr>, (110, 100))] 1 \<and>
   associate
     [\<lparr>position = (100, 100), velocity_samples = [], misses = 3,
       last_detection = Some \<lparr>det_x = 95, det_y = 90, det_w = 10, det_h = 20\<rparr>\<rparr>]
     [\<lparr>det_x = 300, det_y = 90, det_w = 10, det_h = 20\<rparr>,
      \<lparr>det_x = 105, det_y = 90, det_w = 10, det_h = 20\<rparr>]
     [(305, 100), (110, 100)] =
     [\<lparr>position = (110, 100), velocity_samples = [10], misses = 0,
       last_detection = Some \<lparr>det_x = 105, det_y = 90, det_w = 10, det_h = 20\<rparr>\<rparr>,
      \<lparr>position = (305, 100), velocity_samples = [], misses = 0,
       last_detection = Some \<lparr>det_x = 300, det_y = 90, det_w = 10, det_h = 20\<rparr>\<rparr>]"
proof -
  let ?fd = "[\<lparr>det_x = 300, det_y = 90, det_w = 10, det_h = 20\<rparr>,
      \<lparr>det_x = 105, det_y = 90, det_w = 10, det_h = 20\<rparr>]"
  let ?cs = "[(305 :: real, 100 :: real), (110, 100)]"
  let ?t = "\<lparr>position = (100, 100), velocity_samples = [], misses = 3,
       last_detection = Some \<lparr>det_x = 95, det_y = 90, det_w = 10, det_h = 20\<rparr>\<rparr>"
  have start: "match_tracks [] (zip ?fd ?cs) = ([], zip ?fd ?cs)"
    by (rule match_tracks_Nil)
  have fm: "first_min (100, 100) (zip ?fd ?cs) 1"
    by (simp add: first_min_def cand_dist_def point_sub_pair linalg_norm_axis less_Suc_eq)
  then have fm': "first_min (position ?t) (zip ?fd ?cs) 1" by simp
  have near: "cand_dist (position ?t) (zip ?fd ?cs ! 1) \<le> TRACK_DISTANCE_THRESHOLD"
    by (simp add: cand_dist_def point_sub_pair linalg_norm_axis consts_defs)
  from fm C5_commit_and_spawn[OF start fm' near, of "[]"]
  show ?thesis by (simp add: point_sub_pair linalg_norm_axis match_tracks_Nil)
qed

text \<open>
  C6: within one frame the matching is one-to-one. The candidates referred to by the
  tracks matched in the loop, together with the candidates left in the pool, are exactly
  the frame's candidates, counted with multiplicity; after the new tracks are added,
  every candidate of the frame is referred to by exactly one track touched in the frame.
  The order is greedy: when the first track commits to the candidate at index \<open>i\<close>, all
  later tracks are matched against the pool without that candidate, whatever their own
  distance to it.
\<close>

theorem C6_one_to_one_greedy:
  assumes "\<forall>t \<in> set trks. 0 \<le> misses t"
  shows "mset (touched (fst (match_tracks trks pool))) + mset (snd (match_tracks trks pool)) =
           mset pool \<and>
         mset (touched (associate trks fd cs)) = mset (zip fd cs) \<and>
         (first_min (position t1) pool i \<and>
          cand_dist (position t1) (pool ! i) \<le> TRACK_DISTANCE_THRESHOLD \<longrightarrow>
          match_tracks (t1 # later) pool =
            (commit_match t1 (fst (pool ! i)) (snd (pool ! i)) #
               fst (match_tracks later (pop i pool)),
             snd (match_tracks later (pop i pool))))"
proof (intro conjI impI)
  show "mset (touched (fst (match_tracks trks pool))) + mset (snd (match_tracks trks pool)) =
           mset pool"
    by (rule match_tracks_touched[OF assms])
  show "mset (touched (associate trks fd cs)) = mset (zip fd cs)"
    by (rule associate_touched[OF assms])
next
  assume a: "first_min (position t1) pool i \<and>
          cand_dist (position t1) (pool ! i) \<le> TRACK_DISTANCE_THRESHOLD"
  then have "track_step ([], pool) t1 =
      ([] @ [commit_match t1 (fst (pool ! i)) (snd (pool ! i))], pop i pool)"
    by (intro track_step_commit) simp_all
  then show "match_tracks (t1 # later) pool =
            (commit_match t1 (fst (pool ! i)) (snd (pool ! i)) #
               fst (match_tracks later (pop i pool)),
             snd (match_tracks later (pop i pool)))"
    by (simp add: match_tracks_Cons)
qed

theorem C6_one_to_one_greedy_witness:
  "cand_dist (0, 0) (\<lparr>det_x = 3, det_y = -5, det_w = 10, det_h = 10\<rparr>, (8, 0)) = 8 \<and>
   cand_dist (10, 0) (\<lparr>det_x = 3, det_y = -5, det_w = 10, det_h = 10\<rparr>, (8, 0)) = 2 \<and>
   match_tracks
     [\<lparr>position = (0, 0), velocity_samples = [], misses = 0,
       last_detection = Some \<lparr>det_x = -5, det_y = -5, det_w = 10, det_h = 10\<rparr>\<rparr>,
      \<lparr>position = (10, 0), velocity_samples = [], misses = 0,
       last_detection = Some \<lparr>det_x = 5, det_y = -5, det_w = 10, det_h = 10\<rparr>\<rparr>]
     [(\<lparr>det_x = 3, det_y = -5, det_w = 10, det_h = 10\<rparr>, (8, 0))] =
     ([\<lparr>position = (8, 0), velocity_samples = [8], misses = 0,
        last_detection = Some \<lparr>det_x = 3, det_y = -5, det_w = 10, det_h = 10\<rparr>\<rparr>,
       \<lparr>position = (10, 0), velocity_samples = [], misses = 1,
        last_detection = Some \<lparr>det_x = 5, det_y = -5, det_w = 10, det_h = 10\<rparr>\<rparr>], [])"
proof -
  let ?c = "(\<lparr>det_x = 3, det_y = -5, det_w = 10, det_h = 10\<rparr>, (8 :: real, 0 :: real))"
  let ?t1 = "\<lparr>position = (0, 0), velocity_samples = [], misses = 0,
       last_detection = Some \<lparr>det_x = -5, det_y = -5, det_w = 10, det_h = 10\<rparr>\<rparr>"
  let ?t2 = "\<lparr>position = (10, 0), velocity_samples = [], misses = 0,
       last_detection = Some \<lparr>det_x = 5, det_y = -5, det_w = 10, det_h = 10\<rparr>\<rparr>"
  have d1: "cand_dist (0, 0) ?c = 8" and d2: "cand_dist (10, 0) ?c = 2"
    by (simp_all add: cand_dist_def point_sub_pair linalg_norm_axis)
  have inv: "\<forall>t \<in> set [?t1, ?t2]. 0 \<le> misses t" by simp
  have fm: "first_min (position ?t1) [?c] 0"
    by (simp add: first_min_def)
  have near: "cand_dist (position ?t1) ([?c] ! 0) \<le> TRACK_DISTANCE_THRESHOLD"
    using d1 by (simp add: consts_defs)
  have later: "match_tracks [?t2] [] = ([?t2\<lparr>misses := 1\<rparr>], [])"
    by (simp add: match_tracks_def track_step_def find_best_Nil miss_track_def consts_defs)
  from C6_one_to_one_greedy[OF inv, of "[?c]" "[]" "[]" ?t1 0 "[?t2]"] fm near
  have "match_tracks [?t1, ?t2] [?c] =
      (commit_match ?t1 (fst ?c) (snd ?c) # fst (match_tracks [?t2] (pop 0 [?c])),
       snd (match_tracks [?t2] (pop 0 [?c])))"
    by simp
  then show ?thesis
    using d1 d2 later by (simp add: pop_def commit_match_def point_sub_pair linalg_norm_axis)
qed

text \<open>
  C7: \<open>reported_frames\<close> holds the first 50 of the reports that the frames with at least
  one detection give rise to, each with the frame's 0-based index and its number of
  detections; it never has more than 50 entries; \<open>total_detections\<close> is the number of
  detections of all frames, reported or not. The same holds for the summary returned by
  a successful run.
\<close>

theorem C7_reported_frames_capped:
  "reported_frames (run_frames np_mean fs) = take 50 (expected_reports fs) \<and>
   length (reported_frames (run_frames np_mean fs)) \<le> 50 \<and>
   total_detections (run_frames np_mean fs) = sum_list (map length fs) \<and>
   (detect_and_annotate np_mean v = Inr s \<longrightarrow>
      reported_frames s = take 50 (expected_reports (frame_boxes v)) \<and>
      length (reported_frames s) \<le> 50 \<and>
      total_detections s = sum_list (map length (frame_boxes v)))"
proof -
  have a: "reported_frames (run_frames np_mean xs) = take 50 (expected_reports xs)" for xs
    using reported_frames_run[of np_mean xs] by (simp add: consts_defs)
  have b: "total_detections (run_frames np_mean xs) = sum_list (map length xs)" for xs
    by (rule total_detections_run)
  show ?thesis
    using detect_and_annotate_Inr[of np_mean v s] by (auto simp: a b truncate_fields)
qed

theorem C7_reported_frames_capped_witness:
  "detect_and_annotate exact_mean
     \<lparr>is_opened = True, prop_fps = 24, prop_width = 640, prop_height = 480,
      writer_ok = True,
      frame_boxes = [[], [(95, 90, 10, 20), (5, 5, 10, 20)], []]\<rparr> =
     Inr \<lparr>total_frames = 3, frames_with_detections = 1, total_detections = 2,
          reported_frames =
            [\<lparr>frame_index = 1, count = 2,
              boxes = [\<lparr>det_x = 95, det_y = 90, det_w = 10, det_h = 20\<rparr>,
                       \<lparr>det_x = 5, det_y = 5, det_w = 10, det_h = 20\<rparr>]\<rparr>]\<rparr> \<and>
   length (reported_frames (run_frames exact_mean (replicate 52 [(95, 90, 10, 20)]))) = 50 \<and>
   total_detections (run_frames exact_mean (replicate 52 [(95, 90, 10, 20)])) = 52"
proof -
  let ?fs = "[[], [(95, 90, 10, 20), (5, 5, 10, 20)], []] :: box list list"
  let ?v = "\<lparr>is_opened = True, prop_fps = 24, prop_width = 640, prop_height = 480,
      writer_ok = True, frame_boxes = ?fs\<rparr>"
  let ?r = "[\<lparr>frame_index = 1, count = 2,
              boxes = [\<lparr>det_x = 95, det_y = 90, det_w = 10, det_h = 20\<rparr>,
                       \<lparr>det_x = 5, det_y = 5, det_w = 10, det_h = 20\<rparr>]\<rparr>]"
  have l: "length (expected_reports (replicate 52 [(95, 90, 10, 20)])) = 52"
    by (simp add: length_expected_reports)
  have e: "expected_reports ?fs = ?r"
    by (simp add: expected_reports_def upt_rec to_detection_def)
  have ok: "detect_and_annotate exact_mean ?v =
      Inr (summary.truncate (run_frames exact_mean ?fs))"
    by (simp add: detect_and_annotate_loop total_frames_run py_int_def or_zero_def)
  have f: "total_frames (run_frames exact_mean ?fs) = 3"
    "frames_with_detections (run_frames exact_mean ?fs) = 1"
    by (simp_all add: total_frames_run frames_with_detections_run)
  from C7_reported_frames_capped[where np_mean = exact_mean and fs = ?fs and v = ?v
      and s = "summary.truncate (run_frames exact_mean ?fs)"] ok
  have "reported_frames (summary.truncate (run_frames exact_mean ?fs)) =
      take 50 (expected_reports ?fs)"
    and "total_detections (summary.truncate (run_frames exact_mean ?fs)) =
      sum_list (map length ?fs)"
    by simp_all
  then have "summary.truncate (run_frames exact_mean ?fs) =
     \<lparr>total_frames = 3, frames_with_detections = 1, total_detections = 2,
      reported_frames = ?r\<rparr>"
    using f by (simp add: summary.truncate_def e)
  with ok have first: "detect_and_annotate exact_mean ?v =
     Inr \<lparr>total_frames = 3, frames_with_detections = 1, total_detections = 2,
          reported_frames = ?r\<rparr>"
    by simp
  from C7_reported_frames_capped[where np_mean = exact_mean
      and fs = "replicate 52 [(95, 90, 10, 20)]"]
  have "length (reported_frames (run_frames exact_mean (replicate 52 [(95, 90, 10, 20)]))) = 50"
    and "total_detections (run_frames exact_mean (replicate 52 [(95, 90, 10, 20)])) = 52"
    by (simp_all add: l sum_list_replicate)
  with first show ?thesis by (simp only: simp_thms)
qed

text \<open>
  C8: when the source opens, has non-zero dimensions, the encoder starts and the frame
  loop ends with \<open>total_frames = 0\<close>, the run fails with the "No frames detected" error;
  a run whose loop saw no frame never returns a summary, and every returned summary has
  \<open>total_frames > 0\<close>.
\<close>

theorem C8_no_usable_frames:
  "(is_opened v \<and> py_int (or_zero (prop_width v)) \<noteq> 0 \<and>
    py_int (or_zero (prop_height v)) \<noteq> 0 \<and> writer_ok v \<and>
    total_frames (run_frames np_mean (frame_boxes v)) = 0 \<longrightarrow>
      detect_and_annotate np_mean v =
        Inl (ValueError ''No frames detected; the uploaded file may be corrupted.'')) \<and>
   (total_frames (run_frames np_mean (frame_boxes v)) = 0 \<longrightarrow>
      detect_and_annotate np_mean v \<noteq> Inr s) \<and>
   (detect_and_annotate np_mean v = Inr s \<longrightarrow> 0 < total_frames s)"
proof (intro conjI impI)
  assume "is_opened v \<and> py_int (or_zero (prop_width v)) \<noteq> 0 \<and>
    py_int (or_zero (prop_height v)) \<noteq> 0 \<and> writer_ok v \<and>
    total_frames (run_frames np_mean (frame_boxes v)) = 0"
  then show "detect_and_annotate np_mean v =
        Inl (ValueError ''No frames detected; the uploaded file may be corrupted.'')"
    by (simp add: detect_and_annotate_loop)
next
  assume "total_frames (run_frames np_mean (frame_boxes v)) = 0"
  then have "frame_boxes v = []" by (simp add: total_frames_run)
  then show "detect_and_annotate np_mean v \<noteq> Inr s"
    using detect_and_annotate_Inr[of np_mean v s] by blast
next
  assume "detect_and_annotate np_mean v = Inr s"
  from detect_and_annotate_Inr[OF this] show "0 < total_frames s"
    by (simp add: truncate_fields total_frames_run)
qed

theorem C8_no_usable_frames_witness:
  "total_frames (run_frames exact_mean (frame_boxes
     \<lparr>is_opened = True, prop_fps = 24, prop_width = 640, prop_height = 480,
      writer_ok = True, frame_boxes = []\<rparr>)) = 0 \<and>
   detect_and_annotate exact_mean
     \<lparr>is_opened = True, prop_fps = 24, prop_width = 640, prop_height = 480,
      writer_ok = True, frame_boxes = []\<rparr> =
     Inl (ValueError ''No frames detected; the uploaded file may be corrupted.'')"
proof -
  let ?v = "\<lparr>is_opened = True, prop_fps = 24, prop_width = 640, prop_height = 480,
      writer_ok = True, frame_boxes = []\<rparr>"
  have z: "total_frames (run_frames exact_mean (frame_boxes ?v)) = 0"
    by (simp add: run_frames_Nil init_state_def)
  have d: "py_int (or_zero (prop_width ?v)) \<noteq> 0" "py_int (or_zero (prop_height ?v)) \<noteq> 0"
    by (simp_all add: py_int_def or_zero_def)
  from z d C8_no_usable_frames[where np_mean = exact_mean and v = ?v] show ?thesis by simp
qed

text \<open>
  C9: after any sequence of frames every track of the store has a \<open>last_detection\<close>, so
  the drawing loop never takes its \<^verbatim>\<open>continue\<close> branch: it draws one rectangle and
  label for each track.
\<close>

theorem C9_last_detection_always_set:
  "(\<forall>t \<in> set (tracks (run_frames np_mean fs)).
      \<exists>det. last_detection t = Some det \<and>
            draw_track np_mean t = [(det, ''speed: '' @ speed_label np_mean t)]) \<and>
   length (draw_tracks np_mean (tracks (run_frames np_mean fs))) =
     length (tracks (run_frames np_mean fs))"
proof -
  have one: "\<exists>det. last_detection t = Some det \<and>
            draw_track np_mean t = [(det, ''speed: '' @ speed_label np_mean t)]" if "track_ok t" for t
    using that by (auto simp: track_ok_def draw_track_def)
  have len: "\<forall>t \<in> set trks. track_ok t \<Longrightarrow>
      length (draw_tracks np_mean trks) = length trks" for trks
    by (induction trks) (auto simp: draw_tracks_def dest: one)
  from tracks_run_ok[of np_mean fs] one len show ?thesis by blast
qed

theorem C9_last_detection_always_set_witness:
  "tracks (run_frames exact_mean [[(95, 90, 10, 20)], [(995, 90, 10, 20)], []]) =
     [\<lparr>position = (100, 100), velocity_samples = [], misses = 1,
       last_detection = Some \<lparr>det_x = 95, det_y = 90, det_w = 10, det_h = 20\<rparr>\<rparr>,
      \<lparr>position = (1000, 100), velocity_samples = [], misses = 0,
       last_detection = Some \<lparr>det_x = 995, det_y = 90, det_w = 10, det_h = 20\<rparr>\<rparr>] \<and>
   length (draw_tracks exact_mean
     (tracks (run_frames exact_mean [[(95, 90, 10, 20)], [(995, 90, 10, 20)], []]))) = 2"
proof -
  have e: "tracks (run_frames exact_mean [[(95, 90, 10, 20)], [(995, 90, 10, 20)], []]) =
     [\<lparr>position = (100, 100), velocity_samples = [], misses = 1,
       last_detection = Some \<lparr>det_x = 95, det_y = 90, det_w = 10, det_h = 20\<rparr>\<rparr>,
      \<lparr>position = (1000, 100), velocity_samples = [], misses = 0,
       last_detection = Some \<lparr>det_x = 995, det_y = 90, det_w = 10, det_h = 20\<rparr>\<rparr>]"
    by (simp add: run_defs step_defs consts_defs)
  from C9_last_detection_always_set[where np_mean = exact_mean
      and fs = "[[(95, 90, 10, 20)], [(995, 90, 10, 20)], []]"]
  show ?thesis by (simp add: e)
qed

text \<open>
  C10: after any sequence of frames every track of the store has
  \<open>0 \<le> misses \<le> TRACK_MAX_MISSES\<close> (10).
\<close>

theorem C10_misses_bounded:
  "\<forall>t \<in> set (tracks (run_frames np_mean fs)). 0 \<le> misses t \<and> misses t \<le> 10"
  using tracks_run_ok[of np_mean fs] by (simp add: track_ok_def consts_defs)


theorem C10_misses_bounded_witness:
  "tracks (run_frames exact_mean ([(95, 90, 10, 20)] # replicate 10 [(995, 90, 10, 20)])) =
     [\<lparr>position = (100, 100), velocity_samples = [], misses = 10,
       last_detection = Some \<lparr>det_x = 95, det_y = 90, det_w = 10, det_h = 20\<rparr>\<rparr>,
      \<lparr>position = (1000, 100), velocity_samples = [0, 0, 0, 0, 0, 0, 0, 0, 0], misses = 0,
       last_detection = Some \<lparr>det_x = 995, det_y = 90, det_w = 10, det_h = 20\<rparr>\<rparr>] \<and>
   misses \<lparr>position = (100, 100), velocity_samples = [], misses = 10,
       last_detection = Some \<lparr>det_x = 95, det_y = 90, det_w = 10, det_h = 20\<rparr>\<rparr> \<le> 10"
proof -
  let ?fs = "[(95, 90, 10, 20)] # replicate 10 [(995 :: int, 90 :: int, 10 :: int, 20 :: int)]"
  let ?t1 = "\<lparr>position = (100, 100), velocity_samples = [], misses = 10,
       last_detection = Some \<lparr>det_x = 95, det_y = 90, det_w = 10, det_h = 20\<rparr>\<rparr>"
  let ?t2 = "\<lparr>position = (1000, 100), velocity_samples = [0, 0, 0, 0, 0, 0, 0, 0, 0],
       misses = 0,
       last_detection = Some \<lparr>det_x = 995, det_y = 90, det_w = 10, det_h = 20\<rparr>\<rparr>"
  have e: "tracks (run_frames exact_mean ?fs) = [?t1, ?t2]"
    by (simp add: run_defs step_defs consts_defs eval_nat_numeral)
  from C10_misses_bounded[where np_mean = exact_mean and fs = ?fs]
  have b: "\<forall>t \<in> set [?t1, ?t2]. 0 \<le> misses t \<and> misses t \<le> 10"
    by (simp only: e)
  from b have "misses ?t1 \<le> 10" by simp
  with e show ?thesis by (simp only: simp_thms)
qed

end
